theory Spec2Isabelle
  imports Main "HOL-Library.AList"
begin

section \<open>JavaScript values, objects and the store\<close>

text \<open>
  The configuration updater works on ordinary JavaScript data: primitives, plain
  objects, arrays and functions. Objects and arrays are mutated in place and are shared
  by reference (the fallback copy-down stores the template's entries into the sibling
  objects without cloning them), so objects live in a store and a value refers to them by
  address.

  Scope of the model:
  \<^item> a number is an integer (\<open>NaN\<close>, infinities and fractions do not occur);
  \<^item> a function is named by an index; what it computes is given by the host
    environment (see \<open>host\<close> below); functions carry no properties of their own;
  \<^item> an object is the list of its own enumerable data properties, in the order in which
    \<open>Object.keys\<close> enumerates them; an array is the list of its elements together
    with the named properties that were attached to it. Properties inherited from a
    prototype, accessors and sparse arrays are not represented.
\<close>

type_synonym addr = nat

datatype jsval =
    Undefined
  | Null
  | Bool bool
  | Num int
  | Str string
  | Fn nat
  | Ref addr

datatype hobj =
    HObj "(string \<times> jsval) list"
  | HArr "jsval list" "(string \<times> jsval) list"

type_synonym heap = "addr \<Rightarrow> hobj"

text \<open>A path segment is a mapping key (a string) or a sequence index (a number).\<close>

datatype pseg = PStr string | PNum nat

text \<open>
  Errors. \<open>CuError\<close> is the repository's only error class; its three messages are
  kept apart by what they are built from. \<open>TypeError\<close> is what the JavaScript runtime
  throws on a property access on \<open>undefined\<close>/\<open>null\<close> and on a call of a
  non-function. \<open>Thrown\<close> is an exception raised by a custom resolver or a callback.
  \<open>Unmodelled\<close> marks the few steps that leave the scope above: a write that would
  resize an array or make it sparse (see \<open>assignProp\<close>) and the comparison of an array
  with a primitive (see \<open>looseNotEqual\<close>).
\<close>

datatype cu_message =
    InvalidMacroKey jsval "pseg list"
  | MandatoryValueMissing "pseg list"
  | InvalidCallback

datatype error =
    CuError cu_message
  | TypeError
  | Thrown string
  | Unmodelled

subsection \<open>Constants of the two classes\<close>

definition KEY_KEY :: string where "KEY_KEY = ''$$''"
definition DEFAULT_KEY :: string where "DEFAULT_KEY = ''$default''"
definition MANDATORY_KEY :: string where "MANDATORY_KEY = ''$mandatory''"
definition CALLBACK_KEY :: string where "CALLBACK_KEY = ''$callback''"
definition PARENT_DEPENDENT_INDICATOR :: string where "PARENT_DEPENDENT_INDICATOR = ''?''"
definition FALLBACK_KEY :: string where "FALLBACK_KEY = ''$defaults''"

subsection \<open>Primitive operations of the language\<close>

text \<open>\<open>if (v)\<close>: the falsy values are \<open>undefined\<close>, \<open>null\<close>, \<open>false\<close>, \<open>0\<close> and \<open>""\<close>.\<close>

fun truthy :: "jsval \<Rightarrow> bool" where
  "truthy Undefined = False"
| "truthy Null = False"
| "truthy (Bool b) = b"
| "truthy (Num n) = (n \<noteq> 0)"
| "truthy (Str s) = (s \<noteq> [])"
| "truthy (Fn f) = True"
| "truthy (Ref a) = True"

text \<open>\<open>v == undefined\<close> (loose): true for \<open>undefined\<close> and \<open>null\<close> only.\<close>

fun looseUndefined :: "jsval \<Rightarrow> bool" where
  "looseUndefined Undefined = True"
| "looseUndefined Null = True"
| "looseUndefined v = False"

text \<open>Decimal rendering of an array index, as \<open>String(i)\<close> gives it.\<close>

definition digit_char :: "nat \<Rightarrow> char" where
  "digit_char d = char_of (48 + d)"

function show_nat :: "nat \<Rightarrow> string" where
  "show_nat n = (if n < 10 then [digit_char n] else show_nat (n div 10) @ [digit_char (n mod 10)])"
  by pat_completeness auto
termination
  by (relation "measure (\<lambda>n. n)") auto

declare show_nat.simps [simp del]

text \<open>
  The position an array gives to a property name: \<open>Some i\<close> when the name is the
  decimal form of an index below the array's length.
\<close>

definition arrayIndex :: "nat \<Rightarrow> string \<Rightarrow> nat option" where
  "arrayIndex n k = find (\<lambda>i. show_nat i = k) [0..<n]"

text \<open>
  A name is index-like when it is the canonical decimal form of a number
  (\<open>"0"\<close>, \<open>"17"\<close>, not \<open>"01"\<close>); \<open>Object.keys\<close> lists such names first, in
  ascending numeric order, and the other names after them in insertion order.
\<close>

definition is_digit :: "char \<Rightarrow> bool" where
  "is_digit c = ((48::nat) \<le> of_char c \<and> of_char c \<le> (57::nat))"

definition digits_value :: "string \<Rightarrow> nat" where
  "digits_value s = foldl (\<lambda>acc c. 10 * acc + (of_char c - 48)) 0 s"

definition indexLike :: "string \<Rightarrow> nat option" where
  "indexLike s =
     (if s \<noteq> [] \<and> list_all is_digit s \<and> (s = ''0'' \<or> hd s \<noteq> CHR ''0'')
         \<and> digits_value s < 4294967295
      then Some (digits_value s) else None)"

text \<open>Own enumerable property names, in \<open>Object.keys\<close> order.\<close>

fun objectKeys :: "hobj \<Rightarrow> string list" where
  "objectKeys (HObj ps) = map fst ps"
| "objectKeys (HArr es ps) = map show_nat [0..<length es] @ map fst ps"

text \<open>\<open>o.hasOwnProperty(k)\<close>; an array also owns its non-enumerable \<open>length\<close>.\<close>

fun hasOwn :: "hobj \<Rightarrow> string \<Rightarrow> bool" where
  "hasOwn (HObj ps) k = (map_of ps k \<noteq> None)"
| "hasOwn (HArr es ps) k = (arrayIndex (length es) k \<noteq> None \<or> k = ''length'' \<or> map_of ps k \<noteq> None)"

text \<open>\<open>o[k]\<close> on an object of the store: a missing property reads as \<open>undefined\<close>.\<close>

fun readProp :: "hobj \<Rightarrow> string \<Rightarrow> jsval" where
  "readProp (HObj ps) k = (case map_of ps k of Some v \<Rightarrow> v | None \<Rightarrow> Undefined)"
| "readProp (HArr es ps) k =
     (case arrayIndex (length es) k of
        Some i \<Rightarrow> es ! i
      | None \<Rightarrow> if k = ''length'' then Num (int (length es))
                else (case map_of ps k of Some v \<Rightarrow> v | None \<Rightarrow> Undefined))"

text \<open>
  \<open>v[k]\<close> on any value. On \<open>undefined\<close> and \<open>null\<close> the access throws; a string
  has its length and its characters; numbers, booleans and functions have no own
  properties.
\<close>

fun getProp :: "heap \<Rightarrow> jsval \<Rightarrow> string \<Rightarrow> error + jsval" where
  "getProp h Undefined k = Inl TypeError"
| "getProp h Null k = Inl TypeError"
| "getProp h (Ref a) k = Inr (readProp (h a) k)"
| "getProp h (Str s) k =
     (case arrayIndex (length s) k of
        Some i \<Rightarrow> Inr (Str [s ! i])
      | None \<Rightarrow> if k = ''length'' then Inr (Num (int (length s))) else Inr Undefined)"
| "getProp h v k = Inr Undefined"

text \<open>\<open>v.hasOwnProperty(k)\<close> for a truthy value \<open>v\<close>.\<close>

fun valueHasOwn :: "heap \<Rightarrow> jsval \<Rightarrow> string \<Rightarrow> bool" where
  "valueHasOwn h (Ref a) k = hasOwn (h a) k"
| "valueHasOwn h (Str s) k = (arrayIndex (length s) k \<noteq> None \<or> k = ''length'')"
| "valueHasOwn h v k = False"

text \<open>Reading a property of a macro node (an object): \<open>cm[k]\<close>.\<close>

fun macroProp :: "heap \<Rightarrow> jsval \<Rightarrow> string \<Rightarrow> jsval" where
  "macroProp h v k = (case getProp h v k of Inr x \<Rightarrow> x | Inl e \<Rightarrow> Undefined)"

text \<open>\<open>s.split("/")\<close>: never empty; the empty string splits into one empty segment.\<close>

fun splitSlash :: "string \<Rightarrow> string list" where
  "splitSlash [] = [[]]"
| "splitSlash (c # cs) =
     (if c = CHR ''/'' then [] # splitSlash cs
      else (case splitSlash cs of [] \<Rightarrow> [[c]] | x # xs \<Rightarrow> (c # x) # xs))"

section \<open>The repository chain\<close>

text \<open>
  An entry of \<open>#repositories\<close> is the array \<open>[name, resolver, repository]\<close>. The
  resolver slot holds the private default resolver or whatever truthy value the caller
  passed to \<open>register\<close>.
\<close>

datatype resolver = DefaultResolver | GivenResolver jsval

record repository =
  repoName :: string
  repoResolver :: resolver
  repoSource :: jsval

text \<open>
  \<open>unregister(name)\<close>: removes the first entry with that name and tells whether it
  found one.
\<close>

fun unregisterList :: "repository list \<Rightarrow> string \<Rightarrow> repository list" where
  "unregisterList [] name = []"
| "unregisterList (r # rs) name = (if repoName r = name then rs else r # unregisterList rs name)"

definition unregister :: "repository list \<Rightarrow> string \<Rightarrow> repository list \<times> bool" where
  "unregister rs name = (unregisterList rs name, name \<in> set (map repoName rs))"

text \<open>
  \<open>Array.prototype.splice(index, 0, item)\<close>: a negative index counts from the end, an
  index beyond the end appends.
\<close>

definition spliceInsert :: "int \<Rightarrow> 'a \<Rightarrow> 'a list \<Rightarrow> 'a list" where
  "spliceInsert index x xs =
     (let n = int (length xs);
          start = (if index < 0 then max (n + index) 0 else min index n)
      in take (nat start) xs @ [x] @ drop (nat start) xs)"

text \<open>\<open>register(name, repository, index = 9999999, resolver = undefined)\<close>.\<close>

definition register :: "repository list \<Rightarrow> string \<Rightarrow> jsval \<Rightarrow> int \<Rightarrow> jsval \<Rightarrow> repository list" where
  "register rs name source index res =
     spliceInsert index
       \<lparr>repoName = name,
        repoResolver = (if truthy res then GivenResolver res else DefaultResolver),
        repoSource = source\<rparr>
       (fst (unregister rs name))"






section \<open>The macro resolution engine\<close>

text \<open>
  What the functions of the host program compute. A custom resolver is called as
  \<open>resolver(repository, splitSearchKey, macro, path)\<close>, a callback as
  \<open>callback(result, macro, path)\<close>; either may throw. They are taken to read the
  store without changing it.
\<close>

record host =
  callResolver :: "nat \<Rightarrow> heap \<Rightarrow> jsval \<Rightarrow> string list \<Rightarrow> jsval \<Rightarrow> pseg list \<Rightarrow> error + jsval"
  callCallback :: "nat \<Rightarrow> heap \<Rightarrow> jsval \<Rightarrow> jsval \<Rightarrow> pseg list \<Rightarrow> error + jsval"

text \<open>
  \<open>#default_resolver\<close>: walks the repository along the segments of the key and gives
  \<open>undefined\<close> as soon as a step yields \<open>undefined\<close> or \<open>null\<close>.
\<close>

fun default_resolver :: "heap \<Rightarrow> jsval \<Rightarrow> string list \<Rightarrow> error + jsval" where
  "default_resolver h repository [] = Inr repository"
| "default_resolver h repository (p # ps) =
     (case getProp h repository p of
        Inl e \<Rightarrow> Inl e
      | Inr r \<Rightarrow> if looseUndefined r then Inr Undefined else default_resolver h r ps)"

text \<open>The call \<open>repository[1](repository[2], searchKeySplit, cm_or_any, path)\<close>.\<close>

fun invokeResolver ::
  "host \<Rightarrow> heap \<Rightarrow> repository \<Rightarrow> string list \<Rightarrow> jsval \<Rightarrow> pseg list \<Rightarrow> error + jsval" where
  "invokeResolver H h r ks cm path =
     (case repoResolver r of
        DefaultResolver \<Rightarrow> default_resolver h (repoSource r) ks
      | GivenResolver (Fn f) \<Rightarrow> callResolver H f h (repoSource r) ks cm path
      | GivenResolver _ \<Rightarrow> Inl TypeError)"

text \<open>
  The loop over \<open>#repositories\<close> (lines 366 to 381): \<open>result\<close> starts as
  \<open>undefined\<close>, each repository is asked in turn, and the loop breaks at the first
  result that is not \<open>undefined\<close> (strict comparison).
\<close>

fun searchRepositories ::
  "host \<Rightarrow> heap \<Rightarrow> repository list \<Rightarrow> string list \<Rightarrow> jsval \<Rightarrow> pseg list \<Rightarrow> error + jsval" where
  "searchRepositories H h [] ks cm path = Inr Undefined"
| "searchRepositories H h (r # rs) ks cm path =
     (case invokeResolver H h r ks cm path of
        Inl e \<Rightarrow> Inl e
      | Inr result \<Rightarrow>
          if result \<noteq> Undefined then Inr result else searchRepositories H h rs ks cm path)"

text \<open>
  The scan for the parent key (lines 342 to 359). The source walks an index \<open>p\<close> from
  the end of the path down to 0; here the part of the path still to be scanned is held
  reversed, so its head is \<open>path[p]\<close>, and \<open>first\<close> tells whether \<open>p\<close> is still
  the last position (\<open>p == path.length - 1\<close>).
  \<^item> a string at the last position is the key itself and is stepped over;
  \<^item> a string anywhere else is the parent;
  \<^item> at a number the inner loop skips the run of numbers, and the following \<open>p--\<close>
    skips one more segment (the array's name).
\<close>

fun skipIndices :: "pseg list \<Rightarrow> pseg list" where
  "skipIndices (PNum i # ps) = skipIndices ps"
| "skipIndices ps = ps"

function scanParent :: "bool \<Rightarrow> pseg list \<Rightarrow> string" where
  "scanParent first [] = []"
| "scanParent first (PStr s # ps) = (if \<not> first then s else scanParent False ps)"
| "scanParent first (PNum i # ps) = scanParent False (tl (skipIndices ps))"
  by pat_completeness auto
termination
proof (relation "measure (\<lambda>(first, ps). length ps)")
  show "wf (measure (\<lambda>(first, ps). length ps))" by simp
next
  fix first :: bool and s :: string and ps :: "pseg list"
  show "((False, ps), (first, PStr s # ps)) \<in> measure (\<lambda>(first, ps). length ps)" by simp
next
  fix first :: bool and i :: nat and ps :: "pseg list"
  have "length (skipIndices qs) \<le> length qs" for qs
    by (induction qs rule: skipIndices.induct) auto
  then have "length (tl (skipIndices ps)) \<le> length ps"
    by (metis diff_le_self le_trans length_tl)
  then show "((False, tl (skipIndices ps)), (first, PNum i # ps)) \<in> measure (\<lambda>(first, ps). length ps)"
    by simp
qed

definition parentKey :: "pseg list \<Rightarrow> string" where
  "parentKey path = scanParent True (rev path)"

text \<open>
  Lines 340 to 364: a key that starts with the indicator has the indicator replaced by
  the parent key.
\<close>

definition expandSearchKey :: "string \<Rightarrow> pseg list \<Rightarrow> string" where
  "expandSearchKey searchKey path =
     (if take (length PARENT_DEPENDENT_INDICATOR) searchKey = PARENT_DEPENDENT_INDICATOR
      then parentKey path @ drop (length PARENT_DEPENDENT_INDICATOR) searchKey
      else searchKey)"

text \<open>\<open>CM.checkCallback\<close>: \<open>false\<close> for a falsy value, an error for a truthy value that is
  not a function, \<open>true\<close> for a function.\<close>

fun checkCallback :: "jsval \<Rightarrow> error + bool" where
  "checkCallback (Fn f) = Inr True"
| "checkCallback v = (if \<not> truthy v then Inr False else Inl (CuError InvalidCallback))"

text \<open>Lines 394 to 400: the callback step.\<close>

definition applyCallback :: "host \<Rightarrow> heap \<Rightarrow> jsval \<Rightarrow> pseg list \<Rightarrow> jsval \<Rightarrow> error + jsval" where
  "applyCallback H h cm path result =
     (let callback = macroProp h cm CALLBACK_KEY in
      if truthy callback then
        (case checkCallback callback of
           Inl e \<Rightarrow> Inl e
         | Inr ok \<Rightarrow>
            (case callback of
               Fn f \<Rightarrow> callCallback H f h result cm path
             | _ \<Rightarrow> Inl TypeError))
      else Inr result)"

text \<open>Lines 402 to 406: the mandatory check and the return.\<close>

definition checkMandatory :: "heap \<Rightarrow> jsval \<Rightarrow> pseg list \<Rightarrow> jsval \<Rightarrow> error + jsval" where
  "checkMandatory h cm path result =
     (if looseUndefined result \<and> truthy (macroProp h cm MANDATORY_KEY)
      then Inl (CuError (MandatoryValueMissing path))
      else Inr result)"

definition finishMacro :: "host \<Rightarrow> heap \<Rightarrow> jsval \<Rightarrow> pseg list \<Rightarrow> jsval \<Rightarrow> error + jsval" where
  "finishMacro H h cm path result =
     (case applyCallback H h cm path result of
        Inl e \<Rightarrow> Inl e
      | Inr r \<Rightarrow> checkMandatory h cm path r)"

text \<open>
  \<open>getCmValue(cm_or_any, path)\<close>. The recursion on the default value follows
  references of the store and need not end (a macro may be its own default), so the
  function counts its calls down: \<open>None\<close> means that the given number of nested calls
  did not suffice. The path is an array that the source pushes to and pops from; here the
  extended path is passed to the recursive call.
\<close>

fun getCmValue ::
  "nat \<Rightarrow> host \<Rightarrow> heap \<Rightarrow> repository list \<Rightarrow> jsval \<Rightarrow> pseg list \<Rightarrow> (error + jsval) option" where
  "getCmValue 0 H h rs cm_or_any path = None"
| "getCmValue (Suc n) H h rs cm_or_any path =
     (if truthy cm_or_any \<and> valueHasOwn h cm_or_any KEY_KEY then
        (case macroProp h cm_or_any KEY_KEY of
           Str s \<Rightarrow>
             if s = [] then Some (Inl (CuError (InvalidMacroKey (Str s) path)))
             else
               (case searchRepositories H h rs (splitSlash (expandSearchKey s path)) cm_or_any path of
                  Inl e \<Rightarrow> Some (Inl e)
                | Inr result \<Rightarrow>
                    if looseUndefined result \<and> valueHasOwn h cm_or_any DEFAULT_KEY then
                      (case getCmValue n H h rs (macroProp h cm_or_any DEFAULT_KEY)
                              (path @ [PStr ''CM.DEFAULT_KEY'']) of
                         None \<Rightarrow> None
                       | Some (Inl e) \<Rightarrow> Some (Inl e)
                       | Some (Inr d) \<Rightarrow> Some (finishMacro H h cm_or_any path d))
                    else Some (finishMacro H h cm_or_any path result))
         | v \<Rightarrow> Some (Inl (CuError (InvalidMacroKey v path))))
      else Some (Inr cm_or_any))"

text \<open>
  A macro node: a truthy value that owns the key property, whose value is the non-empty
  string \<open>s\<close> (the two tests at the head of \<open>getCmValue\<close>).
\<close>

definition macroWithKey :: "heap \<Rightarrow> jsval \<Rightarrow> string \<Rightarrow> bool" where
  "macroWithKey h cm s \<longleftrightarrow>
     truthy cm \<and> valueHasOwn h cm KEY_KEY \<and> macroProp h cm KEY_KEY = Str s \<and> s \<noteq> []"

section \<open>Example configurations\<close>

text \<open>
  A host with one custom resolver (number 0, which always answers \<open>null\<close>) and callbacks
  that hand their argument back.
\<close>

definition exampleHost :: host where
  "exampleHost =
     \<lparr>callResolver = (\<lambda>f h source ks cm path. if f = 0 then Inr Null else Inl (Thrown ''resolver'')),
      callCallback = (\<lambda>f h result cm path. Inr result)\<rparr>"



text \<open>Further stores used as examples below.\<close>

definition falsyHeap :: heap where
  "falsyHeap = (\<lambda>a. HObj [])
     (11 := HObj [(''k'', Num 0)],
      12 := HObj [(''k'', Num 5)],
      13 := HObj [(''$$'', Str ''k''), (''$default'', Str ''d''), (''$mandatory'', Bool True)])"


definition mandatoryHeap :: heap where
  "mandatoryHeap = (\<lambda>a. HObj [])
     (11 := HObj [(''$$'', Str ''missing''), (''$mandatory'', Bool True)],
      12 := HObj [(''$$'', Str ''missing'')])"

definition nullHeap :: heap where
  "nullHeap = (\<lambda>a. HObj [])
     (11 := HObj [(''k'', Num 2)],
      13 := HObj [(''$$'', Str ''k''), (''$default'', Str ''fallback'')],
      14 := HObj [(''$$'', Str ''k''), (''$mandatory'', Bool True)])"

definition nullChain :: "repository list" where
  "nullChain = register (register [] ''custom'' Null 0 (Fn 0)) ''second'' (Ref 11) 1 Undefined"

definition callbackHeap :: heap where
  "callbackHeap = (\<lambda>a. HObj [])
     (11 := HObj [(''$$'', Str ''xxx''), (''$callback'', Str ''?'')],
      12 := HObj [(''$$'', Str ''xxx''), (''$callback'', Num 0)])"

text \<open>The macro \<open>{$$: "?_SUFFIX"}\<close> and a source that defines \<open>branchA_SUFFIX\<close>.\<close>

definition parentHeap :: heap where
  "parentHeap = (\<lambda>a. HObj [])
     (11 := HObj [(''branchA_SUFFIX'', Str ''found'')],
      12 := HObj [(''$$'', Str ''?_SUFFIX'')])"

section \<open>The parent key as the specification words it\<close>

text \<open>
  The specification describes the parent of a node as the nearest enclosing mapping-key
  segment, found by scanning the path backward from the node's own entry and skipping
  numeric segments. The following two definitions follow these words, for comparison
  with \<open>parentKey\<close> and \<open>expandSearchKey\<close>, which follow the source: the own entry is
  the last segment of the path, and the parent is the last string among the segments
  before it.
\<close>

fun isIndexSegment :: "pseg \<Rightarrow> bool" where
  "isIndexSegment (PNum i) = True"
| "isIndexSegment (PStr s) = False"

definition spec_nearestNamedAncestor :: "pseg list \<Rightarrow> string" where
  "spec_nearestNamedAncestor path =
     (case filter (\<lambda>x. \<not> isIndexSegment x) (rev (butlast path)) of
        PStr s # rest \<Rightarrow> s
      | _ \<Rightarrow> [])"

definition spec_expandSearchKey :: "string \<Rightarrow> pseg list \<Rightarrow> string" where
  "spec_expandSearchKey searchKey path =
     (if take (length PARENT_DEPENDENT_INDICATOR) searchKey = PARENT_DEPENDENT_INDICATOR
      then spec_nearestNamedAncestor path @ drop (length PARENT_DEPENDENT_INDICATOR) searchKey
      else searchKey)"

section \<open>The tree updater\<close>

text \<open>
  \<open>o[key] = value\<close> on an object of the store. A new property name goes where
  \<open>Object.keys\<close> will list it: index-like names in ascending numeric order before all
  other names, the other names at the end. On an array, a write to an element replaces it
  and a write to a new plain name attaches a named property; a write to \<open>length\<close> or to
  an index beyond the last element would resize the array or make it sparse, which is
  outside this model.
\<close>

fun insertIndexKey :: "nat \<Rightarrow> string \<Rightarrow> jsval \<Rightarrow> (string \<times> jsval) list \<Rightarrow> (string \<times> jsval) list" where
  "insertIndexKey i k v [] = [(k, v)]"
| "insertIndexKey i k v (p # ps) =
     (case indexLike (fst p) of
        Some j \<Rightarrow> if j < i then p # insertIndexKey i k v ps else (k, v) # p # ps
      | None \<Rightarrow> (k, v) # p # ps)"

definition setOwnProp :: "(string \<times> jsval) list \<Rightarrow> string \<Rightarrow> jsval \<Rightarrow> (string \<times> jsval) list" where
  "setOwnProp ps k v =
     (if k \<in> set (map fst ps) then AList.update k v ps
      else (case indexLike k of
              Some i \<Rightarrow> insertIndexKey i k v ps
            | None \<Rightarrow> ps @ [(k, v)]))"

fun assignProp :: "hobj \<Rightarrow> string \<Rightarrow> jsval \<Rightarrow> error + hobj" where
  "assignProp (HObj ps) k v = Inr (HObj (setOwnProp ps k v))"
| "assignProp (HArr es ps) k v =
     (case arrayIndex (length es) k of
        Some i \<Rightarrow> Inr (HArr (es[i := v]) ps)
      | None \<Rightarrow>
          if k = ''length'' \<or> indexLike k \<noteq> None then Inl Unmodelled
          else Inr (HArr es (setOwnProp ps k v)))"

text \<open>
  The keys the loop of \<open>traverseConfig\<close> runs over: \<open>config.keys()\<close> (numbers) for an
  array, \<open>Object.keys(config)\<close> (strings) for an object; and the accesses
  \<open>config[indexKey]\<close> with such a key.
\<close>

fun childKeys :: "hobj \<Rightarrow> pseg list" where
  "childKeys (HObj ps) = map (\<lambda>p. PStr (fst p)) ps"
| "childKeys (HArr es ps) = map PNum [0..<length es]"

fun readAt :: "hobj \<Rightarrow> pseg \<Rightarrow> jsval" where
  "readAt ob (PStr k) = readProp ob k"
| "readAt (HArr es ps) (PNum i) = (if i < length es then es ! i else Undefined)"
| "readAt (HObj ps) (PNum i) = readProp (HObj ps) (show_nat i)"

fun writeAt :: "hobj \<Rightarrow> pseg \<Rightarrow> jsval \<Rightarrow> error + hobj" where
  "writeAt ob (PStr k) v = assignProp ob k v"
| "writeAt (HArr es ps) (PNum i) v = (if i < length es then Inr (HArr (es[i := v]) ps) else Inl Unmodelled)"
| "writeAt (HObj ps) (PNum i) v = assignProp (HObj ps) (show_nat i) v"

text \<open>
  \<open>result != value\<close> (loose), where \<open>value\<close> is the object at address \<open>a\<close>. Two
  references are equal when they are the same address; an object never equals
  \<open>undefined\<close>, \<open>null\<close> or a function; against a primitive the object is first turned
  into a string. A plain object prints as \<open>[object Object]\<close> (it is taken to have no
  \<open>toString\<close> or \<open>valueOf\<close> of its own), which is no number; the printed form of an
  array is outside this model.
\<close>

fun looseNotEqual :: "heap \<Rightarrow> jsval \<Rightarrow> addr \<Rightarrow> error + bool" where
  "looseNotEqual h (Ref b) a = Inr (b \<noteq> a)"
| "looseNotEqual h Undefined a = Inr True"
| "looseNotEqual h Null a = Inr True"
| "looseNotEqual h (Fn f) a = Inr True"
| "looseNotEqual h (Str s) a =
     (case h a of HObj ps \<Rightarrow> Inr (s \<noteq> ''[object Object]'') | HArr es ps \<Rightarrow> Inl Unmodelled)"
| "looseNotEqual h (Num n) a = (case h a of HObj ps \<Rightarrow> Inr True | HArr es ps \<Rightarrow> Inl Unmodelled)"
| "looseNotEqual h (Bool b) a = (case h a of HObj ps \<Rightarrow> Inr True | HArr es ps \<Rightarrow> Inl Unmodelled)"

text \<open>Lines 467 to 470: the result replaces the entry when it differs from the value.\<close>

definition storeResult :: "heap \<Rightarrow> addr \<Rightarrow> pseg \<Rightarrow> jsval \<Rightarrow> addr \<Rightarrow> error + heap" where
  "storeResult h c k result a =
     (case looseNotEqual h result a of
        Inl e \<Rightarrow> Inl e
      | Inr differs \<Rightarrow>
          if differs then
            (case writeAt (h c) k result of
               Inl e \<Rightarrow> Inl e
             | Inr ob \<Rightarrow> Inr (h(c := ob)))
          else Inr h)"

text \<open>
  Lines 475 to 482, the copy-down. \<open>for (key in fallback)\<close> runs over the names of an
  object, the indices and named properties of an array, the positions of a string, and over
  nothing for other values; \<open>keys\<close> is computed once, before the loop.
\<close>

fun forInKeys :: "heap \<Rightarrow> jsval \<Rightarrow> string list" where
  "forInKeys h (Ref f) = objectKeys (h f)"
| "forInKeys h (Str s) = map show_nat [0..<length s]"
| "forInKeys h v = []"

fun copyLoop :: "heap \<Rightarrow> jsval \<Rightarrow> addr \<Rightarrow> string list \<Rightarrow> string list \<Rightarrow> error + heap" where
  "copyLoop h fallback r keys [] = Inr h"
| "copyLoop h fallback r keys (key # rest) =
     (if key \<notin> set keys then
        (case assignProp (h r) key (macroProp h fallback key) of
           Inl e \<Rightarrow> Inl e
         | Inr ob \<Rightarrow> copyLoop (h(r := ob)) fallback r keys rest)
      else copyLoop h fallback r keys rest)"

definition copyDefaults :: "heap \<Rightarrow> jsval \<Rightarrow> addr \<Rightarrow> error + heap" where
  "copyDefaults h fallback r =
     (if truthy fallback then copyLoop h fallback r (objectKeys (h r)) (forInKeys h fallback)
      else Inr h)"

text \<open>
  \<open>traverseConfig(config)\<close> and its loop over the keys. \<open>fallback\<close> is read once, at
  the start; the values \<open>config[indexKey]\<close> are read as the loop reaches them. The
  recursion follows references of a store that it changes, and need not end, so it counts
  the nesting of calls down; \<open>None\<close> means that the given depth did not suffice. The
  path is extended for the child and passed on (the source pushes and pops).
\<close>

function traverseConfig ::
    "nat \<Rightarrow> host \<Rightarrow> repository list \<Rightarrow> pseg list \<Rightarrow> heap \<Rightarrow> addr \<Rightarrow> pseg list \<Rightarrow> (error + heap) option"
  and traverseKeys ::
    "nat \<Rightarrow> host \<Rightarrow> repository list \<Rightarrow> pseg list \<Rightarrow> heap \<Rightarrow> addr \<Rightarrow> jsval \<Rightarrow> pseg list \<Rightarrow> pseg list
       \<Rightarrow> (error + heap) option" where
  "traverseConfig 0 H rs exclude h config path = None"
| "traverseConfig (Suc n) H rs exclude h config path =
     traverseKeys n H rs exclude h config (readProp (h config) FALLBACK_KEY) (childKeys (h config)) path"
| "traverseKeys n H rs exclude h config fallback [] path = Some (Inr h)"
| "traverseKeys n H rs exclude h config fallback (indexKey # keys) path =
     (case readAt (h config) indexKey of
        Ref a \<Rightarrow>
          if indexKey \<noteq> PStr FALLBACK_KEY \<and> indexKey \<notin> set exclude then
            (case getCmValue n H h rs (Ref a) (path @ [indexKey]) of
               None \<Rightarrow> None
             | Some (Inl e) \<Rightarrow> Some (Inl e)
             | Some (Inr result) \<Rightarrow>
                 (case storeResult h config indexKey result a of
                    Inl e \<Rightarrow> Some (Inl e)
                  | Inr h1 \<Rightarrow>
                      (case result of
                         Ref r \<Rightarrow>
                           (case copyDefaults h1 fallback r of
                              Inl e \<Rightarrow> Some (Inl e)
                            | Inr h2 \<Rightarrow>
                                (case traverseConfig n H rs exclude h2 r (path @ [indexKey]) of
                                   None \<Rightarrow> None
                                 | Some (Inl e) \<Rightarrow> Some (Inl e)
                                 | Some (Inr h3) \<Rightarrow>
                                     traverseKeys n H rs exclude h3 config fallback keys path))
                       | _ \<Rightarrow> traverseKeys n H rs exclude h1 config fallback keys path)))
          else traverseKeys n H rs exclude h config fallback keys path
      | _ \<Rightarrow> traverseKeys n H rs exclude h config fallback keys path)"
  by pat_completeness auto
termination
  by (relation "measures
        [\<lambda>x. case x of Inl (n, H, rs, ex, h, c, p) \<Rightarrow> n | Inr (n, H, rs, ex, h, c, fb, ks, p) \<Rightarrow> n,
         \<lambda>x. case x of Inl (n, H, rs, ex, h, c, p) \<Rightarrow> 0 | Inr (n, H, rs, ex, h, c, fb, ks, p) \<Rightarrow> Suc (length ks)]")
     auto

text \<open>\<open>updateConfig(root, exclude, initialParentKey)\<close>; the root is returned as it was passed,
  so the outcome is the store.\<close>

definition updateConfig ::
  "nat \<Rightarrow> host \<Rightarrow> repository list \<Rightarrow> heap \<Rightarrow> jsval \<Rightarrow> pseg list \<Rightarrow> string \<Rightarrow> (error + heap) option" where
  "updateConfig n H rs h root exclude initialParentKey =
     (case root of
        Ref c \<Rightarrow>
          traverseConfig n H rs exclude h c
            (if initialParentKey \<noteq> [] then [PStr initialParentKey] else [])
      | _ \<Rightarrow> Some (Inr h))"









text \<open>
  From the repository's tests (``Handle properties with an Array-value''): the branch
  \<open>{listResult: [{$$: "URL"}, "Hello", {$$: "?_URL"}]}\<close>, updated with the initial parent
  key \<open>branchList\<close> against a source that defines \<open>URL\<close> and \<open>branchList_URL\<close>.
\<close>

definition listHeap :: heap where
  "listHeap = (\<lambda>a. HObj [])
     (50 := HObj [(''listResult'', Ref 51)],
      51 := HArr [Ref 52, Str ''Hello'', Ref 53] [],
      52 := HObj [(''$$'', Str ''URL'')],
      53 := HObj [(''$$'', Str ''?_URL'')],
      54 := HObj [(''URL'', Str ''env-url''), (''branchList_URL'', Str ''branchList_URL'')])"

definition listChain :: "repository list" where
  "listChain = [\<lparr>repoName = ''testRepository'', repoResolver = DefaultResolver, repoSource = Ref 54\<rparr>]"

text \<open>
  A store in which the template of the root is also the value of a property further
  down: \<open>F = {a: 1}\<close>, \<open>{$defaults: F, s: {$defaults: {z: 2}, t: F}}\<close>; and the store after
  one and after two passes of \<open>updateConfig\<close>.
\<close>

definition sharedTemplateHeap :: heap where
  "sharedTemplateHeap = (\<lambda>a. HObj [])
     (60 := HObj [(''$defaults'', Ref 61), (''s'', Ref 62)],
      61 := HObj [(''a'', Num 1)],
      62 := HObj [(''$defaults'', Ref 63), (''t'', Ref 61)],
      63 := HObj [(''z'', Num 2)])"

definition sharedTemplateHeap1 :: heap where
  "sharedTemplateHeap1 = sharedTemplateHeap
     (62 := HObj [(''$defaults'', Ref 63), (''t'', Ref 61), (''a'', Num 1)],
      61 := HObj [(''a'', Num 1), (''z'', Num 2)])"

definition sharedTemplateHeap2 :: heap where
  "sharedTemplateHeap2 = sharedTemplateHeap1
     (62 := HObj [(''$defaults'', Ref 63), (''t'', Ref 61), (''a'', Num 1), (''z'', Num 2)])"

section \<open>Properties of the repository chain\<close>










section \<open>Properties of the resolution engine\<close>

lemma searchRepositories_first:
  assumes "\<forall>q\<in>set pre. invokeResolver H h q ks cm path = Inr Undefined"
    and "invokeResolver H h r ks cm path = x" and "x \<noteq> Inr Undefined"
  shows "searchRepositories H h (pre @ r # post) ks cm path = x"
  using assms
proof (induction pre)
  case Nil
  then show ?case by (cases x) (simp_all del: invokeResolver.simps)
next
  case (Cons q pre)
  then show ?case by (simp del: invokeResolver.simps)
qed

lemma searchRepositories_all_undefined:
  "\<forall>q\<in>set rs. invokeResolver H h q ks cm path = Inr Undefined \<Longrightarrow>
   searchRepositories H h rs ks cm path = Inr Undefined"
  by (induction rs) (simp_all del: invokeResolver.simps)

lemma getCmValue_macro:
  assumes "macroWithKey h cm s"
  shows "getCmValue (Suc n) H h rs cm path =
     (case searchRepositories H h rs (splitSlash (expandSearchKey s path)) cm path of
        Inl e \<Rightarrow> Some (Inl e)
      | Inr result \<Rightarrow>
          if looseUndefined result \<and> valueHasOwn h cm DEFAULT_KEY then
            (case getCmValue n H h rs (macroProp h cm DEFAULT_KEY) (path @ [PStr ''CM.DEFAULT_KEY'']) of
               None \<Rightarrow> None
             | Some (Inl e) \<Rightarrow> Some (Inl e)
             | Some (Inr d) \<Rightarrow> Some (finishMacro H h cm path d))
          else Some (finishMacro H h cm path result))"
  using assms by (simp add: macroWithKey_def del: macroProp.simps)

lemma getCmValue_found:
  assumes "macroWithKey h cm s"
    and "searchRepositories H h rs (splitSlash (expandSearchKey s path)) cm path = Inr v"
    and "\<not> looseUndefined v"
  shows "getCmValue (Suc n) H h rs cm path = Some (finishMacro H h cm path v)"
  using assms by (simp add: getCmValue_macro del: getCmValue.simps)

lemma finishMacro_no_callback:
  "\<not> truthy (macroProp h cm CALLBACK_KEY) \<Longrightarrow> finishMacro H h cm path v = checkMandatory h cm path v"
  by (simp add: finishMacro_def applyCallback_def del: macroProp.simps)

lemma checkMandatory_present:
  "\<not> looseUndefined v \<Longrightarrow> checkMandatory h cm path v = Inr v"
  by (simp add: checkMandatory_def)





lemma getCmValue_default:
  assumes "macroWithKey h cm s"
    and "searchRepositories H h rs (splitSlash (expandSearchKey s path)) cm path = Inr r"
    and "looseUndefined r" and "valueHasOwn h cm DEFAULT_KEY"
  shows "getCmValue (Suc n) H h rs cm path =
     (case getCmValue n H h rs (macroProp h cm DEFAULT_KEY) (path @ [PStr ''CM.DEFAULT_KEY'']) of
        None \<Rightarrow> None
      | Some (Inl e) \<Rightarrow> Some (Inl e)
      | Some (Inr d) \<Rightarrow> Some (finishMacro H h cm path d))"
  using assms by (simp add: getCmValue_macro del: getCmValue.simps macroProp.simps)

lemma getCmValue_no_default:
  assumes "macroWithKey h cm s"
    and "searchRepositories H h rs (splitSlash (expandSearchKey s path)) cm path = Inr r"
    and "\<not> valueHasOwn h cm DEFAULT_KEY"
  shows "getCmValue (Suc n) H h rs cm path = Some (finishMacro H h cm path r)"
  using assms by (simp add: getCmValue_macro del: getCmValue.simps macroProp.simps)

lemma getCmValue_before_callback:
  assumes "macroWithKey h cm s"
    and "searchRepositories H h rs (splitSlash (expandSearchKey s path)) cm path = Inr res"
    and "if looseUndefined res \<and> valueHasOwn h cm DEFAULT_KEY
         then getCmValue n H h rs (macroProp h cm DEFAULT_KEY) (path @ [PStr ''CM.DEFAULT_KEY'']) = Some (Inr d)
         else d = res"
  shows "getCmValue (Suc n) H h rs cm path = Some (finishMacro H h cm path d)"
  using assms
  by (simp add: getCmValue_macro del: getCmValue.simps macroProp.simps split: if_splits)

lemma is_digit_digit_char: "d < 10 \<Longrightarrow> is_digit (digit_char d)"
  by (simp add: is_digit_def digit_char_def)

lemma show_nat_digits: "list_all is_digit (show_nat n)"
proof (induction n rule: show_nat.induct)
  case (1 n)
  show ?case
  proof (cases "n < 10")
    case True
    then show ?thesis by (subst show_nat.simps) (simp add: is_digit_digit_char)
  next
    case False
    then show ?thesis using 1 by (subst show_nat.simps) (simp add: is_digit_digit_char)
  qed
qed

lemma arrayIndex_not_digits: "\<not> list_all is_digit k \<Longrightarrow> arrayIndex n k = None"
  using show_nat_digits by (auto simp: arrayIndex_def find_None_iff)

lemma arrayIndex_KEY_KEY: "arrayIndex n KEY_KEY = None"
  by (rule arrayIndex_not_digits) (simp add: KEY_KEY_def is_digit_def)

lemma string_is_no_macro: "\<not> valueHasOwn h (Str s) KEY_KEY"
  by (simp add: arrayIndex_KEY_KEY) (simp add: KEY_KEY_def)

lemma getCmValue_plain:
  "\<not> (truthy v \<and> valueHasOwn h v KEY_KEY) \<Longrightarrow> getCmValue (Suc n) H h rs v path = Some (Inr v)"
  by (auto simp del: macroProp.simps)

text \<open>
  C2. A falsy value that is present (\<open>0\<close>, \<open>""\<close>, \<open>false\<close>) is a found result:
  when the first repository that does not answer \<open>undefined\<close> answers such a value
  \<open>v\<close>, the search ends with \<open>v\<close>, and \<open>getCmValue\<close> goes on with \<open>v\<close> to
  the callback step and the mandatory check without consulting the macro's default. Without
  a callback the value \<open>v\<close> itself is returned, whatever \<open>$default\<close> and
  \<open>$mandatory\<close> say.
\<close>

theorem C2_falsy_value_is_found:
  assumes "macroWithKey h cm s"
    and "rs = pre @ r # post"
    and "\<forall>q\<in>set pre. invokeResolver H h q (splitSlash (expandSearchKey s path)) cm path = Inr Undefined"
    and "invokeResolver H h r (splitSlash (expandSearchKey s path)) cm path = Inr v"
    and "v = Num 0 \<or> v = Str [] \<or> v = Bool False"
  shows "searchRepositories H h rs (splitSlash (expandSearchKey s path)) cm path = Inr v \<and>
         getCmValue (Suc n) H h rs cm path = Some (finishMacro H h cm path v) \<and>
         (\<not> truthy (macroProp h cm CALLBACK_KEY) \<longrightarrow>
            getCmValue (Suc n) H h rs cm path = Some (Inr v))"
proof -
  have present: "\<not> looseUndefined v" and nu: "Inr v \<noteq> (Inr Undefined :: error + jsval)"
    using assms(5) by auto
  have found: "searchRepositories H h rs (splitSlash (expandSearchKey s path)) cm path = Inr v"
    unfolding assms(2) using assms(3) assms(4) nu by (rule searchRepositories_first)
  have res: "getCmValue (Suc n) H h rs cm path = Some (finishMacro H h cm path v)"
    using assms(1) found present by (rule getCmValue_found)
  have "finishMacro H h cm path v = Inr v" if "\<not> truthy (macroProp h cm CALLBACK_KEY)"
    using that present by (simp add: finishMacro_no_callback checkMandatory_present del: macroProp.simps)
  with found res show ?thesis by (simp del: getCmValue.simps macroProp.simps)
qed

theorem C2_falsy_value_is_found_witness:
  "getCmValue (Suc 0) exampleHost falsyHeap
     [\<lparr>repoName = ''first'', repoResolver = DefaultResolver, repoSource = Ref 11\<rparr>,
      \<lparr>repoName = ''second'', repoResolver = DefaultResolver, repoSource = Ref 12\<rparr>]
     (Ref 13) [] = Some (Inr (Num 0))"
proof -
  let ?r = "\<lparr>repoName = ''first'', repoResolver = DefaultResolver, repoSource = Ref 11\<rparr>"
  let ?q = "\<lparr>repoName = ''second'', repoResolver = DefaultResolver, repoSource = Ref 12\<rparr>"
  have ks: "splitSlash (expandSearchKey ''k'' []) = [''k'']"
    by (simp add: expandSearchKey_def PARENT_DEPENDENT_INDICATOR_def)
  have m: "macroWithKey falsyHeap (Ref 13) ''k''"
    by (simp add: macroWithKey_def falsyHeap_def KEY_KEY_def)
  have rs: "[?r, ?q] = [] @ ?r # [?q]" by simp
  have a: "\<forall>q\<in>set []. invokeResolver exampleHost falsyHeap q (splitSlash (expandSearchKey ''k'' [])) (Ref 13) [] = Inr Undefined"
    by simp
  have b: "invokeResolver exampleHost falsyHeap ?r (splitSlash (expandSearchKey ''k'' [])) (Ref 13) [] = Inr (Num 0)"
    by (simp add: ks falsyHeap_def)
  have c: "Num 0 = Num 0 \<or> Num 0 = Str [] \<or> Num 0 = Bool False" by simp
  have cb: "\<not> truthy (macroProp falsyHeap (Ref 13) CALLBACK_KEY)"
    by (simp add: falsyHeap_def CALLBACK_KEY_def)
  from C2_falsy_value_is_found [OF m rs a b c] cb show ?thesis by blast
qed



text \<open>
  C6. Let \<open>d\<close> be the value a macro has after the search and the default step, and let the
  callback step turn it into \<open>final\<close>. When \<open>final\<close> is absent (\<open>undefined\<close>, or
  \<open>null\<close>, which the test \<open>result == undefined\<close> also accepts) the macro fails with the
  mandatory error carrying the path if its \<open>$mandatory\<close> property is truthy, and returns
  \<open>final\<close> without error otherwise.
\<close>

theorem C6_mandatory_check:
  assumes "macroWithKey h cm s"
    and "searchRepositories H h rs (splitSlash (expandSearchKey s path)) cm path = Inr res"
    and "if looseUndefined res \<and> valueHasOwn h cm DEFAULT_KEY
         then getCmValue n H h rs (macroProp h cm DEFAULT_KEY) (path @ [PStr ''CM.DEFAULT_KEY'']) = Some (Inr d)
         else d = res"
    and "applyCallback H h cm path d = Inr final"
    and "looseUndefined final"
  shows "getCmValue (Suc n) H h rs cm path =
          (if truthy (macroProp h cm MANDATORY_KEY)
           then Some (Inl (CuError (MandatoryValueMissing path)))
           else Some (Inr final))"
proof -
  have "getCmValue (Suc n) H h rs cm path = Some (finishMacro H h cm path d)"
    using assms(1) assms(2) assms(3) by (rule getCmValue_before_callback)
  moreover have "finishMacro H h cm path d =
      (if truthy (macroProp h cm MANDATORY_KEY)
       then Inl (CuError (MandatoryValueMissing path)) else Inr final)"
    using assms(4) assms(5) by (simp add: finishMacro_def checkMandatory_def del: macroProp.simps)
  ultimately show ?thesis by (simp del: getCmValue.simps macroProp.simps)
qed

theorem C6_mandatory_check_witness:
  "getCmValue (Suc 0) exampleHost mandatoryHeap [] (Ref 11) [PStr ''cfg'', PStr ''password'']
     = Some (Inl (CuError (MandatoryValueMissing [PStr ''cfg'', PStr ''password''])))
   \<and> getCmValue (Suc 0) exampleHost mandatoryHeap [] (Ref 12) [PStr ''cfg'', PStr ''password'']
     = Some (Inr Undefined)"
proof -
  let ?p = "[PStr ''cfg'', PStr ''password'']"
  have m1: "macroWithKey mandatoryHeap (Ref 11) ''missing''"
    and m2: "macroWithKey mandatoryHeap (Ref 12) ''missing''"
    by (simp_all add: macroWithKey_def mandatoryHeap_def KEY_KEY_def)
  have s: "searchRepositories exampleHost mandatoryHeap [] (splitSlash (expandSearchKey ''missing'' ?p)) c ?p = Inr Undefined" for c
    by simp
  have d1: "if looseUndefined Undefined \<and> valueHasOwn mandatoryHeap (Ref 11) DEFAULT_KEY
         then getCmValue 0 exampleHost mandatoryHeap [] (macroProp mandatoryHeap (Ref 11) DEFAULT_KEY) (?p @ [PStr ''CM.DEFAULT_KEY'']) = Some (Inr Undefined)
         else Undefined = Undefined"
    by (simp add: mandatoryHeap_def DEFAULT_KEY_def)
  have d2: "if looseUndefined Undefined \<and> valueHasOwn mandatoryHeap (Ref 12) DEFAULT_KEY
         then getCmValue 0 exampleHost mandatoryHeap [] (macroProp mandatoryHeap (Ref 12) DEFAULT_KEY) (?p @ [PStr ''CM.DEFAULT_KEY'']) = Some (Inr Undefined)
         else Undefined = Undefined"
    by (simp add: mandatoryHeap_def DEFAULT_KEY_def)
  have c1: "applyCallback exampleHost mandatoryHeap (Ref 11) ?p Undefined = Inr Undefined"
    and c2: "applyCallback exampleHost mandatoryHeap (Ref 12) ?p Undefined = Inr Undefined"
    by (simp_all add: applyCallback_def mandatoryHeap_def CALLBACK_KEY_def)
  have u: "looseUndefined Undefined" by simp
  have t1: "truthy (macroProp mandatoryHeap (Ref 11) MANDATORY_KEY)"
    and t2: "\<not> truthy (macroProp mandatoryHeap (Ref 12) MANDATORY_KEY)"
    by (simp_all add: mandatoryHeap_def MANDATORY_KEY_def)
  from C6_mandatory_check [OF m1 s d1 c1 u] C6_mandatory_check [OF m2 s d2 c2 u] t1 t2
  show ?thesis by (simp del: getCmValue.simps macroProp.simps)
qed

text \<open>
  C10. A resolver answer of \<open>null\<close> is not \<open>undefined\<close>, so it ends the search and the
  repositories behind it are not asked; but \<open>null == undefined\<close> holds, so the default
  step and the mandatory check treat it as absent: with a \<open>$default\<close> the default is
  resolved, and without default and callback the macro fails if it is mandatory and
  returns \<open>null\<close> if it is not.
\<close>

theorem C10_null_ends_search_but_is_absent:
  assumes "macroWithKey h cm s"
    and "ks = splitSlash (expandSearchKey s path)"
    and "\<forall>q\<in>set pre. invokeResolver H h q ks cm path = Inr Undefined"
    and "invokeResolver H h r ks cm path = Inr Null"
  shows "searchRepositories H h (pre @ r # post) ks cm path = Inr Null \<and>
         (valueHasOwn h cm DEFAULT_KEY \<longrightarrow>
            getCmValue (Suc n) H h (pre @ r # post) cm path =
              (case getCmValue n H h (pre @ r # post) (macroProp h cm DEFAULT_KEY)
                      (path @ [PStr ''CM.DEFAULT_KEY'']) of
                 None \<Rightarrow> None
               | Some (Inl e) \<Rightarrow> Some (Inl e)
               | Some (Inr d) \<Rightarrow> Some (finishMacro H h cm path d))) \<and>
         (\<not> valueHasOwn h cm DEFAULT_KEY \<and> \<not> truthy (macroProp h cm CALLBACK_KEY) \<longrightarrow>
            getCmValue (Suc n) H h (pre @ r # post) cm path =
              (if truthy (macroProp h cm MANDATORY_KEY)
               then Some (Inl (CuError (MandatoryValueMissing path)))
               else Some (Inr Null)))"
proof -
  have found: "searchRepositories H h (pre @ r # post) ks cm path = Inr Null"
    using assms(3) assms(4) by (rule searchRepositories_first) simp
  have found': "searchRepositories H h (pre @ r # post) (splitSlash (expandSearchKey s path)) cm path = Inr Null"
    using found assms(2) by simp
  have a: "getCmValue (Suc n) H h (pre @ r # post) cm path =
              (case getCmValue n H h (pre @ r # post) (macroProp h cm DEFAULT_KEY)
                      (path @ [PStr ''CM.DEFAULT_KEY'']) of
                 None \<Rightarrow> None
               | Some (Inl e) \<Rightarrow> Some (Inl e)
               | Some (Inr d) \<Rightarrow> Some (finishMacro H h cm path d))"
    if "valueHasOwn h cm DEFAULT_KEY"
    using assms(1) found' _ that by (rule getCmValue_default) simp
  have b: "getCmValue (Suc n) H h (pre @ r # post) cm path =
              (if truthy (macroProp h cm MANDATORY_KEY)
               then Some (Inl (CuError (MandatoryValueMissing path)))
               else Some (Inr Null))"
    if nd: "\<not> valueHasOwn h cm DEFAULT_KEY" and ncb: "\<not> truthy (macroProp h cm CALLBACK_KEY)"
  proof -
    have "getCmValue (Suc n) H h (pre @ r # post) cm path = Some (finishMacro H h cm path Null)"
      using assms(1) found' nd by (rule getCmValue_no_default)
    then show ?thesis
      using ncb by (simp add: finishMacro_no_callback checkMandatory_def del: getCmValue.simps macroProp.simps)
  qed
  from found a b show ?thesis by blast
qed

theorem C10_null_ends_search_but_is_absent_witness:
  "getCmValue (Suc (Suc 0)) exampleHost nullHeap nullChain (Ref 13) [] = Some (Inr (Str ''fallback''))
   \<and> getCmValue (Suc 0) exampleHost nullHeap nullChain (Ref 14) [] = Some (Inl (CuError (MandatoryValueMissing [])))"
proof -
  let ?r = "\<lparr>repoName = ''custom'', repoResolver = GivenResolver (Fn 0), repoSource = Null\<rparr>"
  let ?q = "\<lparr>repoName = ''second'', repoResolver = DefaultResolver, repoSource = Ref 11\<rparr>"
  have chain: "nullChain = [] @ ?r # [?q]"
    by (simp add: nullChain_def register_def unregister_def spliceInsert_def)
  have m3: "macroWithKey nullHeap (Ref 13) ''k''" and m4: "macroWithKey nullHeap (Ref 14) ''k''"
    by (simp_all add: macroWithKey_def nullHeap_def KEY_KEY_def)
  have ks: "[''k''] = splitSlash (expandSearchKey ''k'' [])"
    by (simp add: expandSearchKey_def PARENT_DEPENDENT_INDICATOR_def)
  have a: "\<forall>q\<in>set []. invokeResolver exampleHost nullHeap q [''k''] c [] = Inr Undefined" for c
    by simp
  have b: "invokeResolver exampleHost nullHeap ?r [''k''] c [] = Inr Null" for c
    by (simp add: exampleHost_def)
  have d3: "valueHasOwn nullHeap (Ref 13) DEFAULT_KEY"
    and d4: "\<not> valueHasOwn nullHeap (Ref 14) DEFAULT_KEY \<and> \<not> truthy (macroProp nullHeap (Ref 14) CALLBACK_KEY)"
    and t4: "truthy (macroProp nullHeap (Ref 14) MANDATORY_KEY)"
    and v3: "macroProp nullHeap (Ref 13) DEFAULT_KEY = Str ''fallback''"
    by (simp_all add: nullHeap_def DEFAULT_KEY_def CALLBACK_KEY_def MANDATORY_KEY_def)
  have f3: "finishMacro exampleHost nullHeap (Ref 13) [] (Str ''fallback'') = Inr (Str ''fallback'')"
    by (simp add: finishMacro_def applyCallback_def checkMandatory_def nullHeap_def
        CALLBACK_KEY_def MANDATORY_KEY_def)
  have plain: "getCmValue (Suc 0) exampleHost nullHeap ([] @ ?r # [?q]) (Str ''fallback'') ([] @ [PStr ''CM.DEFAULT_KEY''])
      = Some (Inr (Str ''fallback''))"
    by (rule getCmValue_plain) (simp add: string_is_no_macro del: valueHasOwn.simps)
  note t3 = C10_null_ends_search_but_is_absent [OF m3 ks a b, where post = "[?q]" and n = "Suc 0"]
  note t4' = C10_null_ends_search_but_is_absent [OF m4 ks a b, where post = "[?q]" and n = 0]
  have r3: "getCmValue (Suc (Suc 0)) exampleHost nullHeap ([] @ ?r # [?q]) (Ref 13) [] = Some (Inr (Str ''fallback''))"
    using t3 d3 plain by (simp add: v3 f3 del: getCmValue.simps macroProp.simps)
  have r4: "getCmValue (Suc 0) exampleHost nullHeap ([] @ ?r # [?q]) (Ref 14) [] = Some (Inl (CuError (MandatoryValueMissing [])))"
    using t4' d4 t4 by (simp del: getCmValue.simps macroProp.simps)
  from r3 r4 show ?thesis unfolding chain by blast
qed

text \<open>
  C7, as stated, fails: a callback property with a falsy value that is not a function
  (here \<open>0\<close>) is ignored, and the macro resolves without error.
\<close>

theorem C7_falsy_callback_counterexample:
  "macroWithKey callbackHeap (Ref 12) ''xxx'' \<and>
   valueHasOwn callbackHeap (Ref 12) CALLBACK_KEY \<and>
   macroProp callbackHeap (Ref 12) CALLBACK_KEY = Num 0 \<and>
   getCmValue (Suc 0) exampleHost callbackHeap [] (Ref 12) [] = Some (Inr Undefined)"
  by (simp add: macroWithKey_def callbackHeap_def KEY_KEY_def CALLBACK_KEY_def DEFAULT_KEY_def
      MANDATORY_KEY_def expandSearchKey_def PARENT_DEPENDENT_INDICATOR_def finishMacro_def
      applyCallback_def checkMandatory_def)

text \<open>
  C7, amended. Let \<open>d\<close> be the value a macro has after the search and the default step
  (both completed without error). If the macro's callback property is truthy and not a
  function, \<open>getCmValue\<close> raises the invalid-callback error; if it is falsy, the
  property is treated as no callback and \<open>d\<close> goes to the mandatory check unchanged.
\<close>

theorem C7_invalid_callback:
  assumes "macroWithKey h cm s"
    and "searchRepositories H h rs (splitSlash (expandSearchKey s path)) cm path = Inr res"
    and "if looseUndefined res \<and> valueHasOwn h cm DEFAULT_KEY
         then getCmValue n H h rs (macroProp h cm DEFAULT_KEY) (path @ [PStr ''CM.DEFAULT_KEY'']) = Some (Inr d)
         else d = res"
  shows "(truthy (macroProp h cm CALLBACK_KEY) \<and> (\<forall>f. macroProp h cm CALLBACK_KEY \<noteq> Fn f) \<longrightarrow>
            getCmValue (Suc n) H h rs cm path = Some (Inl (CuError InvalidCallback))) \<and>
         (\<not> truthy (macroProp h cm CALLBACK_KEY) \<longrightarrow>
            getCmValue (Suc n) H h rs cm path = Some (checkMandatory h cm path d))"
proof -
  have g: "getCmValue (Suc n) H h rs cm path = Some (finishMacro H h cm path d)"
    using assms by (rule getCmValue_before_callback)
  have bad: "applyCallback H h cm path d = Inl (CuError InvalidCallback)"
    if "truthy (macroProp h cm CALLBACK_KEY)" and "\<forall>f. macroProp h cm CALLBACK_KEY \<noteq> Fn f"
    using that by (cases "macroProp h cm CALLBACK_KEY") (simp_all add: applyCallback_def del: macroProp.simps)
  have "finishMacro H h cm path d = Inl (CuError InvalidCallback)"
    if "truthy (macroProp h cm CALLBACK_KEY)" and "\<forall>f. macroProp h cm CALLBACK_KEY \<noteq> Fn f"
    using bad [OF that] by (simp add: finishMacro_def)
  moreover have "finishMacro H h cm path d = checkMandatory h cm path d"
    if "\<not> truthy (macroProp h cm CALLBACK_KEY)"
    using that by (rule finishMacro_no_callback)
  ultimately show ?thesis using g by (simp del: getCmValue.simps macroProp.simps)
qed

theorem C7_invalid_callback_witness:
  "getCmValue (Suc 0) exampleHost callbackHeap [] (Ref 11) [] = Some (Inl (CuError InvalidCallback))"
proof -
  have m: "macroWithKey callbackHeap (Ref 11) ''xxx''"
    by (simp add: macroWithKey_def callbackHeap_def KEY_KEY_def)
  have s: "searchRepositories exampleHost callbackHeap [] (splitSlash (expandSearchKey ''xxx'' [])) (Ref 11) [] = Inr Undefined"
    by simp
  have d: "if looseUndefined Undefined \<and> valueHasOwn callbackHeap (Ref 11) DEFAULT_KEY
         then getCmValue 0 exampleHost callbackHeap [] (macroProp callbackHeap (Ref 11) DEFAULT_KEY) ([] @ [PStr ''CM.DEFAULT_KEY'']) = Some (Inr Undefined)
         else Undefined = Undefined"
    by (simp add: callbackHeap_def DEFAULT_KEY_def)
  have cb: "truthy (macroProp callbackHeap (Ref 11) CALLBACK_KEY) \<and> (\<forall>f. macroProp callbackHeap (Ref 11) CALLBACK_KEY \<noteq> Fn f)"
    by (simp add: callbackHeap_def CALLBACK_KEY_def)
  from C7_invalid_callback [OF m s d] cb show ?thesis by blast
qed

lemma skipIndices_indices:
  "list_all isIndexSegment xs \<Longrightarrow> skipIndices (xs @ PStr s # ys) = PStr s # ys"
proof (induction xs)
  case Nil
  then show ?case by simp
next
  case (Cons x xs)
  then show ?case by (cases x) simp_all
qed

lemma skipIndices_only_indices: "list_all isIndexSegment xs \<Longrightarrow> skipIndices xs = []"
proof (induction xs)
  case Nil
  then show ?case by simp
next
  case (Cons x xs)
  then show ?case by (cases x) simp_all
qed

lemma scanParent_own_entry:
  assumes "list_all isIndexSegment js"
  shows "scanParent True (js @ PStr name # PStr parent # ps) = parent"
proof (cases js)
  case Nil
  then show ?thesis by simp
next
  case (Cons j js')
  then obtain i where j: "j = PNum i" using assms by (cases j) simp_all
  have "list_all isIndexSegment js'" using assms Cons by simp
  then have "skipIndices (js' @ PStr name # PStr parent # ps) = PStr name # PStr parent # ps"
    by (rule skipIndices_indices)
  then show ?thesis using Cons j by simp
qed

lemma scanParent_root_entry:
  assumes "list_all isIndexSegment js"
  shows "scanParent True (js @ [PStr name]) = []"
proof (cases js)
  case Nil
  then show ?thesis by simp
next
  case (Cons j js')
  then obtain i where j: "j = PNum i" using assms by (cases j) simp_all
  have "list_all isIndexSegment js'" using assms Cons by simp
  then have "skipIndices (js' @ [PStr name]) = [PStr name]"
    using skipIndices_indices [of js' name "[]"] by simp
  then show ?thesis using Cons j by simp
qed

lemma parentKey_own_entry:
  assumes "list_all isIndexSegment idxs"
  shows "parentKey (pre @ [PStr parent, PStr name] @ idxs) = parent"
proof -
  have "list_all isIndexSegment (rev idxs)" using assms by (simp add: list_all_iff)
  then have "scanParent True (rev idxs @ PStr name # PStr parent # rev pre) = parent"
    by (rule scanParent_own_entry)
  then show ?thesis by (simp add: parentKey_def)
qed

lemma parentKey_root_entry:
  assumes "list_all isIndexSegment idxs"
  shows "parentKey (PStr name # idxs) = []"
proof -
  have "list_all isIndexSegment (rev idxs)" using assms by (simp add: list_all_iff)
  then have "scanParent True (rev idxs @ [PStr name]) = []"
    by (rule scanParent_root_entry)
  then show ?thesis by (simp add: parentKey_def)
qed

text \<open>
  What the scan gives behind an element of a sequence: for a property \<open>field\<close> of the
  object \<open>a[0]\<close>, where \<open>a\<close> is a property of \<open>x\<close>, the scan steps over the index and
  over the name \<open>a\<close>, and arrives at \<open>x\<close>.
\<close>

lemma parentKey_behind_sequence_element:
  "parentKey [PStr ''x'', PStr ''a'', PNum 0, PStr ''field''] = ''x''"
  by (simp add: parentKey_def)

text \<open>
  C3, as stated, fails at an element of a sequence: for the third element of
  \<open>branchList.listResult\<close> the nearest mapping key before the node's own entry is
  \<open>listResult\<close>, while the source takes the name of the sequence as part of the
  element's own entry and arrives at \<open>branchList\<close>.
\<close>

theorem C3_sequence_element_counterexample:
  "expandSearchKey ''?_URL'' [PStr ''branchList'', PStr ''listResult'', PNum 2] = ''branchList_URL'' \<and>
   spec_expandSearchKey ''?_URL'' [PStr ''branchList'', PStr ''listResult'', PNum 2] = ''listResult_URL''"
  by (simp add: expandSearchKey_def spec_expandSearchKey_def spec_nearestNamedAncestor_def
      parentKey_def PARENT_DEPENDENT_INDICATOR_def)

text \<open>
  C3, amended. A node's own entry in the path is its key, or, for an element of a
  (possibly nested) sequence, the name of the sequence followed by the indices. When the
  segment before the own entry is a mapping key, that key replaces the indicator of a
  parent-dependent macro key, and the repositories are searched under the expanded key;
  when the own entry starts the path, the indicator is replaced by the empty string. In
  particular a node at \<open>["branchA", "field"]\<close> with key \<open>"?_SUFFIX"\<close> is searched
  under \<open>"branchA_SUFFIX"\<close>.
\<close>

theorem C3_parent_key_expansion:
  assumes "list_all isIndexSegment idxs"
  shows "parentKey (pre @ [PStr parent, PStr name] @ idxs) = parent \<and>
         parentKey (PStr name # idxs) = [] \<and>
         expandSearchKey (PARENT_DEPENDENT_INDICATOR @ rest) (pre @ [PStr parent, PStr name] @ idxs)
           = parent @ rest \<and>
         (macroWithKey h cm (PARENT_DEPENDENT_INDICATOR @ rest) \<and>
          searchRepositories H h rs (splitSlash (parent @ rest)) cm (pre @ [PStr parent, PStr name] @ idxs) = Inr v \<and>
          \<not> looseUndefined v \<longrightarrow>
            getCmValue (Suc n) H h rs cm (pre @ [PStr parent, PStr name] @ idxs)
              = Some (finishMacro H h cm (pre @ [PStr parent, PStr name] @ idxs) v)) \<and>
         expandSearchKey ''?_SUFFIX'' [PStr ''branchA'', PStr ''field''] = ''branchA_SUFFIX''"
proof -
  let ?path = "pre @ [PStr parent, PStr name] @ idxs"
  have p: "parentKey ?path = parent" using assms by (rule parentKey_own_entry)
  have r: "parentKey (PStr name # idxs) = []" using assms by (rule parentKey_root_entry)
  have e: "expandSearchKey (PARENT_DEPENDENT_INDICATOR @ rest) ?path = parent @ rest"
    using p by (simp add: expandSearchKey_def)
  have g: "getCmValue (Suc n) H h rs cm ?path = Some (finishMacro H h cm ?path v)"
    if m: "macroWithKey h cm (PARENT_DEPENDENT_INDICATOR @ rest)"
      and s: "searchRepositories H h rs (splitSlash (parent @ rest)) cm ?path = Inr v"
      and v: "\<not> looseUndefined v"
  proof -
    have "searchRepositories H h rs
            (splitSlash (expandSearchKey (PARENT_DEPENDENT_INDICATOR @ rest) ?path)) cm ?path = Inr v"
      using s by (simp only: e)
    with m show ?thesis using v by (rule getCmValue_found)
  qed
  have x: "expandSearchKey ''?_SUFFIX'' [PStr ''branchA'', PStr ''field''] = ''branchA_SUFFIX''"
    by (simp add: expandSearchKey_def parentKey_def PARENT_DEPENDENT_INDICATOR_def)
  from p r e g x show ?thesis by blast
qed

theorem C3_parent_key_expansion_witness:
  "parentKey [PStr ''branchList'', PStr ''listResult'', PNum 2] = ''branchList'' \<and>
   getCmValue (Suc 0) exampleHost parentHeap
     [\<lparr>repoName = ''env'', repoResolver = DefaultResolver, repoSource = Ref 11\<rparr>]
     (Ref 12) [PStr ''branchA'', PStr ''field''] = Some (Inr (Str ''found''))"
proof -
  let ?rs = "[\<lparr>repoName = ''env'', repoResolver = DefaultResolver, repoSource = Ref 11\<rparr>]"
  have i2: "list_all isIndexSegment [PNum 2]" and i0: "list_all isIndexSegment []" by simp_all
  have a: "parentKey [PStr ''branchList'', PStr ''listResult'', PNum 2] = ''branchList''"
    using C3_parent_key_expansion [OF i2, where pre = "[]" and parent = "''branchList''" and name = "''listResult''"]
    by simp
  have m: "macroWithKey parentHeap (Ref 12) (PARENT_DEPENDENT_INDICATOR @ ''_SUFFIX'')"
    by (simp add: macroWithKey_def parentHeap_def KEY_KEY_def PARENT_DEPENDENT_INDICATOR_def)
  have s: "searchRepositories exampleHost parentHeap ?rs (splitSlash (''branchA'' @ ''_SUFFIX'')) (Ref 12)
             ([] @ [PStr ''branchA'', PStr ''field''] @ []) = Inr (Str ''found'')"
    by (simp add: parentHeap_def)
  have v: "\<not> looseUndefined (Str ''found'')" by simp
  have f: "finishMacro exampleHost parentHeap (Ref 12) q (Str ''found'') = Inr (Str ''found'')" for q
    by (simp add: finishMacro_def applyCallback_def checkMandatory_def parentHeap_def
        CALLBACK_KEY_def MANDATORY_KEY_def)
  have b: "getCmValue (Suc 0) exampleHost parentHeap ?rs (Ref 12) ([] @ [PStr ''branchA'', PStr ''field''] @ [])
      = Some (Inr (Str ''found''))"
    using C3_parent_key_expansion [OF i0, where pre = "[]" and parent = "''branchA''" and name = "''field''"
        and rest = "''_SUFFIX''" and h = parentHeap and cm = "Ref 12" and H = exampleHost and rs = ?rs
        and v = "Str ''found''" and n = 0] m s v
    by (simp only: f) blast
  from a b show ?thesis by simp
qed

section \<open>Properties of the tree updater\<close>






lemma arrayIndex_None: "arrayIndex n k = None \<longleftrightarrow> k \<notin> set (map show_nat [0..<n])"
  by (auto simp: arrayIndex_def find_None_iff)













lemmas engine_defs =
  KEY_KEY_def DEFAULT_KEY_def MANDATORY_KEY_def CALLBACK_KEY_def FALLBACK_KEY_def
  PARENT_DEPENDENT_INDICATOR_def expandSearchKey_def parentKey_def finishMacro_def
  applyCallback_def checkMandatory_def storeResult_def copyDefaults_def updateConfig_def
  setOwnProp_def indexLike_def is_digit_def








lemma listHeap_cells:
  "listHeap 50 = HObj [(''listResult'', Ref 51)]"
  "listHeap 51 = HArr [Ref 52, Str ''Hello'', Ref 53] []"
  "listHeap 52 = HObj [(''$$'', Str ''URL'')]"
  "listHeap 53 = HObj [(''$$'', Str ''?_URL'')]"
  "listHeap 54 = HObj [(''URL'', Str ''env-url''), (''branchList_URL'', Str ''branchList_URL'')]"
  by (simp_all add: listHeap_def)

text \<open>
  The model run on that test gives what the test asserts: the three elements become
  \<open>"env-url"\<close>, \<open>"Hello"\<close> and \<open>"branchList_URL"\<close>.
\<close>

lemma updateConfig_list_test:
  "updateConfig (Suc (Suc (Suc 0))) exampleHost listChain listHeap (Ref 50) [] ''branchList''
     = Some (Inr (listHeap(51 := HArr [Str ''env-url'', Str ''Hello'', Str ''branchList_URL''] [])))"
  unfolding updateConfig_def
  by (simp add: engine_defs listHeap_cells listChain_def arrayIndex_def show_nat.simps digit_char_def)

text \<open>
  Inside the resolution of a default the marker segment is the last segment of the path,
  so a parent-dependent key of a default macro takes the property name of the macro it
  is the default of.
\<close>

lemma parentKey_in_default:
  "parentKey (path @ [PStr own, PStr ''CM.DEFAULT_KEY'']) = own"
  using parentKey_own_entry [of "[]" path own "''CM.DEFAULT_KEY''"] by simp

lemma sharedTemplateHeap_cells:
  "sharedTemplateHeap 60 = HObj [(''$defaults'', Ref 61), (''s'', Ref 62)]"
  "sharedTemplateHeap 61 = HObj [(''a'', Num 1)]"
  "sharedTemplateHeap 62 = HObj [(''$defaults'', Ref 63), (''t'', Ref 61)]"
  "sharedTemplateHeap 63 = HObj [(''z'', Num 2)]"
  by (simp_all add: sharedTemplateHeap_def)

text \<open>
  Macro nodes are not the only way for a second pass to find work. When a template is
  shared with a visited property, the first pass can add keys to the template after these
  were copied down, and the second pass copies the new keys: here \<open>s\<close> receives \<open>z\<close>
  in the second pass only. So a resolved tree must also define the template's keys.
\<close>

lemma shared_template_passes:
  "updateConfig (Suc (Suc (Suc (Suc 0)))) exampleHost [] sharedTemplateHeap (Ref 60) [] []
     = Some (Inr sharedTemplateHeap1) \<and>
   updateConfig (Suc (Suc (Suc (Suc 0)))) exampleHost [] sharedTemplateHeap1 (Ref 60) [] []
     = Some (Inr sharedTemplateHeap2)"
proof -
  have a: "updateConfig (Suc (Suc (Suc (Suc 0)))) exampleHost [] sharedTemplateHeap (Ref 60) [] []
     = Some (Inr sharedTemplateHeap1)"
    unfolding updateConfig_def sharedTemplateHeap1_def
    by (simp add: engine_defs sharedTemplateHeap_cells)
  have b: "updateConfig (Suc (Suc (Suc (Suc 0)))) exampleHost [] sharedTemplateHeap1 (Ref 60) [] []
     = Some (Inr sharedTemplateHeap2)"
    unfolding updateConfig_def sharedTemplateHeap1_def sharedTemplateHeap2_def
    by (simp add: engine_defs sharedTemplateHeap_cells)
  from a b show ?thesis by simp
qed

end
